theory Spec2Isabelle
  imports Complex_Main "HOL-Library.Sublist" "HOL-Library.Char_ord" "HOL-Library.List_Lexorder"
begin

section \<open>Pitch-location heatmap script: filter, derive, summarise\<close>

text \<open>
  The development follows \<^verbatim>\<open>kde_heatmap_2025.py\<close> top to bottom: the roster lookup
  (lines 36-44), the filter chain (lines 47-55), the emptiness check (lines 59-61), the
  vertical-approach-angle columns (lines 64-76), the summary row (lines 79-85) and the
  plotted row-set (line 102).
\<close>

subsection \<open>Float64 cells\<close>

text \<open>
  A Float64 value is not-a-number, an infinity, a zero of either sign, or a finite number.
  Finite numbers are idealised as reals: rounding and overflow are not modelled, the special
  values are. \<open>Fin 0\<close> is the positive zero and \<open>NegZero\<close> the negative one.
\<close>

datatype fl = Fin real | NegZero | PInf | NInf | NaN

fun fl_finite :: "fl \<Rightarrow> bool" where
  "fl_finite (Fin x) = True"
| "fl_finite NegZero = True"
| "fl_finite PInf = False"
| "fl_finite NInf = False"
| "fl_finite NaN = False"

fun fl_isinf :: "fl \<Rightarrow> bool" where
  "fl_isinf PInf = True"
| "fl_isinf NInf = True"
| "fl_isinf (Fin x) = False"
| "fl_isinf NegZero = False"
| "fl_isinf NaN = False"

text \<open>The numeric value of a finite float (0 for the others, which no caller reads).\<close>

fun fval :: "fl \<Rightarrow> real" where
  "fval (Fin x) = x"
| "fval NegZero = 0"
| "fval PInf = 0"
| "fval NInf = 0"
| "fval NaN = 0"

text \<open>The sign bit.\<close>

fun fl_signbit :: "fl \<Rightarrow> bool" where
  "fl_signbit (Fin x) = (x < 0)"
| "fl_signbit NegZero = True"
| "fl_signbit PInf = False"
| "fl_signbit NInf = True"
| "fl_signbit NaN = False"

definition mkfin :: "bool \<Rightarrow> real \<Rightarrow> fl" where
  "mkfin s x = (if x = 0 then (if s then NegZero else Fin 0) else Fin x)"

definition mkinf :: "bool \<Rightarrow> fl" where
  "mkinf s = (if s then NInf else PInf)"

text \<open>Unary minus flips the sign bit, also on zeros and infinities.\<close>

fun fl_neg :: "fl \<Rightarrow> fl" where
  "fl_neg NaN = NaN"
| "fl_neg PInf = NInf"
| "fl_neg NInf = PInf"
| "fl_neg NegZero = Fin 0"
| "fl_neg (Fin x) = mkfin (\<not> (x < 0)) (- x)"

text \<open>
  Addition: opposite infinities give not-a-number; an exact zero sum is the positive
  zero unless both operands are the negative zero.
\<close>

definition fl_add :: "fl \<Rightarrow> fl \<Rightarrow> fl" where
  "fl_add a b =
     (if a = NaN \<or> b = NaN then NaN
      else if fl_isinf a then (if fl_isinf b \<and> a \<noteq> b then NaN else a)
      else if fl_isinf b then b
      else if a = NegZero \<and> b = NegZero then NegZero
      else Fin (fval a + fval b))"

definition fl_sub :: "fl \<Rightarrow> fl \<Rightarrow> fl" where
  "fl_sub a b = fl_add a (fl_neg b)"

text \<open>Multiplication: zero times infinity is not-a-number; the sign is the xor of the signs.\<close>

definition fl_mul :: "fl \<Rightarrow> fl \<Rightarrow> fl" where
  "fl_mul a b =
     (if a = NaN \<or> b = NaN then NaN
      else if fl_isinf a \<or> fl_isinf b then
        (if (fl_finite a \<and> fval a = 0) \<or> (fl_finite b \<and> fval b = 0) then NaN
         else mkinf (fl_signbit a \<noteq> fl_signbit b))
      else mkfin (fl_signbit a \<noteq> fl_signbit b) (fval a * fval b))"

text \<open>
  True division: no exception on a zero divisor. A non-zero number over zero is an
  infinity, zero over zero and infinity over infinity are not-a-number.
\<close>

definition fl_div :: "fl \<Rightarrow> fl \<Rightarrow> fl" where
  "fl_div a b =
     (if a = NaN \<or> b = NaN then NaN
      else if fl_isinf a then
        (if fl_isinf b then NaN else mkinf (fl_signbit a \<noteq> fl_signbit b))
      else if fl_isinf b then mkfin (fl_signbit a \<noteq> fl_signbit b) 0
      else if fval b = 0 then
        (if fval a = 0 then NaN else mkinf (fl_signbit a \<noteq> fl_signbit b))
      else mkfin (fl_signbit a \<noteq> fl_signbit b) (fval a / fval b))"

text \<open>Square root: not-a-number (no exception) below zero.\<close>

fun fl_sqrt :: "fl \<Rightarrow> fl" where
  "fl_sqrt NaN = NaN"
| "fl_sqrt PInf = PInf"
| "fl_sqrt NInf = NaN"
| "fl_sqrt NegZero = NegZero"
| "fl_sqrt (Fin x) = (if x < 0 then NaN else Fin (sqrt x))"

fun fl_arctan :: "fl \<Rightarrow> fl" where
  "fl_arctan NaN = NaN"
| "fl_arctan PInf = Fin (pi / 2)"
| "fl_arctan NInf = Fin (- (pi / 2))"
| "fl_arctan NegZero = NegZero"
| "fl_arctan (Fin x) = Fin (arctan x)"

text \<open>
  Rounding to one decimal: the nearest multiple of 1/10, a tie going away from zero.
  The sign of the argument is kept when the result is zero. The properties below that
  speak of rounding also give the distance to the unrounded value, which no tie rule changes.
\<close>

definition round1 :: "real \<Rightarrow> real" where
  "round1 x = sgn x * of_int \<lfloor>\<bar>x\<bar> * 10 + 1 / 2\<rfloor> / 10"

fun fl_round1 :: "fl \<Rightarrow> fl" where
  "fl_round1 NaN = NaN"
| "fl_round1 PInf = PInf"
| "fl_round1 NInf = NInf"
| "fl_round1 NegZero = NegZero"
| "fl_round1 (Fin x) = mkfin (x < 0) (round1 x)"

text \<open>Equality of floats up to the sign of zero.\<close>

fun canon :: "fl \<Rightarrow> fl" where
  "canon NegZero = Fin 0"
| "canon (Fin x) = Fin x"
| "canon PInf = PInf"
| "canon NInf = NInf"
| "canon NaN = NaN"

text \<open>
  A cell of a Float64 column is a float or null (\<open>None\<close>). Null is the missing value;
  not-a-number is a float. An arithmetic expression is null where an operand is null.
\<close>

type_synonym cell = "fl option"

definition lift2 :: "(fl \<Rightarrow> fl \<Rightarrow> fl) \<Rightarrow> cell \<Rightarrow> cell \<Rightarrow> cell" where
  "lift2 f a b = (case a of None \<Rightarrow> None | Some x \<Rightarrow> (case b of None \<Rightarrow> None | Some y \<Rightarrow> Some (f x y)))"

definition lit :: "real \<Rightarrow> cell" where
  "lit x = Some (Fin x)"

subsection \<open>Records and user input\<close>

text \<open>One row of the frame returned by \<^verbatim>\<open>get_data_df\<close>, with the columns the script reads.\<close>

record pitch =
  pitcher_name :: "string option"
  pitcher_id :: "nat option"
  pitch_type :: "string option"
  game_date :: "string option"
  batter_hand :: "string option"
  px :: cell
  pz :: cell
  vy0 :: cell
  ay :: cell
  vz0 :: cell
  az :: cell
  start_speed :: cell
  ivb :: cell
  hb :: cell
  extension :: cell

text \<open>A calendar date as the date widget returns it; \<open>str_date\<close> is Python's \<^verbatim>\<open>str\<close> on it.\<close>

record date =
  year :: nat
  month :: nat
  day :: nat

definition valid_date :: "date \<Rightarrow> bool" where
  "valid_date d = (1 \<le> year d \<and> year d \<le> 9999 \<and> 1 \<le> month d \<and> month d \<le> 12 \<and> 1 \<le> day d \<and> day d \<le> 31)"

definition date_le :: "date \<Rightarrow> date \<Rightarrow> bool" where
  "date_le a b = (year a < year b \<or> (year a = year b \<and> (month a < month b \<or> (month a = month b \<and> day a \<le> day b))))"

definition digit :: "nat \<Rightarrow> char" where
  "digit n = char_of (48 + n mod 10)"

definition pad2 :: "nat \<Rightarrow> string" where
  "pad2 n = [digit (n div 10), digit n]"

definition pad4 :: "nat \<Rightarrow> string" where
  "pad4 n = [digit (n div 1000), digit (n div 100), digit (n div 10), digit n]"

definition str_date :: "date \<Rightarrow> string" where
  "str_date d = pad4 (year d) @ ''-'' @ pad2 (month d) @ ''-'' @ pad2 (day d)"

record inputs =
  pitcher_name_input :: string
  pitch_type_input :: string
  batter_hand_input :: string
  start_date :: date
  end_date :: date

subsection \<open>The filter chain (lines 47-55)\<close>

text \<open>
  \<^verbatim>\<open>df.filter(p)\<close> keeps, in order, the rows where \<open>p\<close> is true; a comparison with a
  null cell is null and the row is dropped.
\<close>

definition col_eq :: "string option \<Rightarrow> string \<Rightarrow> bool" where
  "col_eq c s = (case c of None \<Rightarrow> False | Some v \<Rightarrow> v = s)"

definition col_ge :: "string option \<Rightarrow> string \<Rightarrow> bool" where
  "col_ge c s = (case c of None \<Rightarrow> False | Some v \<Rightarrow> s \<le> v)"

definition col_le :: "string option \<Rightarrow> string \<Rightarrow> bool" where
  "col_le c s = (case c of None \<Rightarrow> False | Some v \<Rightarrow> v \<le> s)"

definition name_filter :: "string \<Rightarrow> pitch list \<Rightarrow> pitch list" where
  "name_filter n df = filter (\<lambda>r. col_eq (pitcher_name r) n) df"

definition type_filter :: "string \<Rightarrow> pitch list \<Rightarrow> pitch list" where
  "type_filter t df = filter (\<lambda>r. col_eq (pitch_type r) t) df"

definition date_filter :: "date \<Rightarrow> date \<Rightarrow> pitch list \<Rightarrow> pitch list" where
  "date_filter s e df =
     filter (\<lambda>r. col_ge (game_date r) (str_date s) \<and> col_le (game_date r) (str_date e)) df"

definition hand_filter :: "string \<Rightarrow> pitch list \<Rightarrow> pitch list" where
  "hand_filter h df =
     (if h = ''Left'' then filter (\<lambda>r. col_eq (batter_hand r) ''L'') df
      else if h = ''Right'' then filter (\<lambda>r. col_eq (batter_hand r) ''R'') df
      else df)"

definition filter_rows :: "inputs \<Rightarrow> pitch list \<Rightarrow> pitch list" where
  "filter_rows inp df =
     hand_filter (batter_hand_input inp)
       (date_filter (start_date inp) (end_date inp)
         (type_filter (pitch_type_input inp)
           (name_filter (pitcher_name_input inp) df)))"

text \<open>Row by row, the chain keeps the rows that satisfy every stage's predicate.\<close>

definition hand_ok :: "string \<Rightarrow> pitch \<Rightarrow> bool" where
  "hand_ok h r =
     (if h = ''Left'' then col_eq (batter_hand r) ''L''
      else if h = ''Right'' then col_eq (batter_hand r) ''R''
      else True)"

definition selected :: "inputs \<Rightarrow> pitch \<Rightarrow> bool" where
  "selected inp r =
     (col_eq (pitcher_name r) (pitcher_name_input inp) \<and>
      col_eq (pitch_type r) (pitch_type_input inp) \<and>
      col_ge (game_date r) (str_date (start_date inp)) \<and>
      col_le (game_date r) (str_date (end_date inp)) \<and>
      hand_ok (batter_hand_input inp) r)"

subsection \<open>Vertical approach angle (lines 64-76)\<close>

definition y0 :: real where
  "y0 = 50"

definition yf :: real where
  "yf = 17 / 12"

text \<open>
  The five chained \<^verbatim>\<open>with_columns\<close> calls add five columns to each row; each new
  column reads the columns added before it.
\<close>

record derived = pitch +
  vy_f :: cell
  t :: cell
  vz_f :: cell
  vaa_rad :: cell
  vaa_deg :: cell

definition c_neg :: "cell \<Rightarrow> cell" where
  "c_neg a = map_option fl_neg a"

definition c_sqrt :: "cell \<Rightarrow> cell" where
  "c_sqrt a = map_option fl_sqrt a"

definition c_arctan :: "cell \<Rightarrow> cell" where
  "c_arctan a = map_option fl_arctan a"

definition c_pow2 :: "cell \<Rightarrow> cell" where
  "c_pow2 a = map_option (\<lambda>x. fl_mul x x) a"

definition col_vy_f :: "pitch \<Rightarrow> cell" where
  "col_vy_f r =
     c_neg (c_sqrt (lift2 fl_sub (c_pow2 (vy0 r))
                      (lift2 fl_mul (lift2 fl_mul (lit 2) (ay r)) (lit (y0 - yf)))))"

definition col_t :: "pitch \<Rightarrow> cell \<Rightarrow> cell" where
  "col_t r vyf = lift2 fl_div (lift2 fl_sub vyf (vy0 r)) (ay r)"

definition col_vz_f :: "pitch \<Rightarrow> cell \<Rightarrow> cell" where
  "col_vz_f r tt = lift2 fl_add (vz0 r) (lift2 fl_mul (az r) tt)"

definition col_vaa_rad :: "cell \<Rightarrow> cell \<Rightarrow> cell" where
  "col_vaa_rad vzf vyf = c_arctan (lift2 fl_div (c_neg vzf) vyf)"

definition col_vaa_deg :: "cell \<Rightarrow> cell" where
  "col_vaa_deg rad = lift2 fl_mul rad (lit (180 / pi))"

definition with_vaa_columns :: "pitch \<Rightarrow> derived" where
  "with_vaa_columns r =
     (let vyf = col_vy_f r;
          tt = col_t r vyf;
          vzf = col_vz_f r tt;
          rad = col_vaa_rad vzf vyf;
          deg = col_vaa_deg rad
      in pitch.extend r (derived.fields vyf tt vzf rad deg))"

definition derive :: "pitch list \<Rightarrow> derived list" where
  "derive df = map with_vaa_columns df"

subsection \<open>Summary row (lines 79-85)\<close>

fun non_null :: "cell list \<Rightarrow> fl list" where
  "non_null [] = []"
| "non_null (None # cs) = non_null cs"
| "non_null (Some v # cs) = v # non_null cs"

text \<open>
  The column mean skips nulls and only nulls: the sum of the non-null values over their
  count, null when there is none. Not-a-number is a value and takes part in the sum.
\<close>

definition col_mean :: "cell list \<Rightarrow> cell" where
  "col_mean cs =
     (let vs = non_null cs
      in if vs = [] then None
         else Some (fl_div (foldl fl_add (Fin 0) vs) (Fin (real (length vs)))))"

definition c_round1 :: "cell \<Rightarrow> cell" where
  "c_round1 a = map_option fl_round1 a"

text \<open>Conversion of the one-row frame to pandas: a null becomes not-a-number.\<close>

definition to_pandas :: "cell \<Rightarrow> fl" where
  "to_pandas a = (case a of None \<Rightarrow> NaN | Some v \<Rightarrow> v)"

record summary_stats =
  Velo :: fl
  IVB :: fl
  HB :: fl
  Ext :: fl
  VAA :: fl

definition stat :: "(derived \<Rightarrow> cell) \<Rightarrow> derived list \<Rightarrow> fl" where
  "stat c df = to_pandas (c_round1 (col_mean (map c df)))"

definition summary :: "derived list \<Rightarrow> summary_stats" where
  "summary df =
     \<lparr>Velo = stat start_speed df,
      IVB = stat ivb df,
      HB = stat hb df,
      Ext = stat extension df,
      VAA = stat vaa_deg df\<rparr>"

subsection \<open>Rows for the density plot (line 102)\<close>

definition select_px_pz :: "derived list \<Rightarrow> (cell \<times> cell) list" where
  "select_px_pz df = map (\<lambda>r. (px r, pz r)) df"

definition drop_nulls :: "(cell \<times> cell) list \<Rightarrow> (cell \<times> cell) list" where
  "drop_nulls rows = filter (\<lambda>(a, b). a \<noteq> None \<and> b \<noteq> None) rows"

definition pdf :: "derived list \<Rightarrow> (fl \<times> fl) list" where
  "pdf df = map (\<lambda>(a, b). (to_pandas a, to_pandas b)) (drop_nulls (select_px_pz df))"

subsection \<open>The script\<close>

text \<open>
  The fetch client is outside the repository: the roster it returned and its three
  functions are parameters. A run is the list of steps it went through, in order, and
  its outcome; \<^verbatim>\<open>st.stop()\<close> ends the run.
\<close>

record player =
  name :: string
  player_id :: nat

record 'raw scraper =
  players_df :: "player list"
  get_player_games_list :: "nat \<Rightarrow> nat list"
  get_data :: "nat list \<Rightarrow> 'raw"
  get_data_df :: "'raw \<Rightarrow> pitch list"

datatype step =
    GetPlayers
  | StError
  | StWarning
  | StStop
  | GetPlayerGamesList nat
  | GetData "nat list"
  | GetDataDf
  | FilterRows
  | WithColumns
  | Summary
  | PrepareKde
  | Plot

datatype outcome =
    NotFound
  | EmptyResult
  | Rendered summary_stats "(fl \<times> fl) list"

fun is_game_fetch :: "step \<Rightarrow> bool" where
  "is_game_fetch (GetPlayerGamesList i) = True"
| "is_game_fetch (GetData g) = True"
| "is_game_fetch GetDataDf = True"
| "is_game_fetch s = False"

fun is_derivation :: "step \<Rightarrow> bool" where
  "is_derivation WithColumns = True"
| "is_derivation Summary = True"
| "is_derivation s = False"

text \<open>Lines 47-146: filter, stop when nothing is left, else derive, summarise and plot.\<close>

definition compute :: "inputs \<Rightarrow> pitch list \<Rightarrow> step list \<times> outcome" where
  "compute inp df0 =
     (let df = filter_rows inp df0
      in if df = [] then ([FilterRows, StWarning, StStop], EmptyResult)
         else (let dfd = derive df
               in ([FilterRows, WithColumns, Summary, PrepareKde, Plot],
                   Rendered (summary dfd) (pdf dfd))))"

text \<open>Lines 18-44, then the rest: the roster lookup stops the run when no name matches.\<close>

definition script :: "'raw scraper \<Rightarrow> inputs \<Rightarrow> step list \<times> outcome" where
  "script sc inp =
     (case filter (\<lambda>p. name p = pitcher_name_input inp) (players_df sc) of
        [] \<Rightarrow> ([GetPlayers, StError, StStop], NotFound)
      | p # ps \<Rightarrow>
          (let game_ids = get_player_games_list sc (player_id p);
               raw_data = get_data sc game_ids;
               df = get_data_df sc raw_data;
               (steps, out) = compute inp df
           in (GetPlayers # GetPlayerGamesList (player_id p) # GetData game_ids # GetDataDf # steps, out)))"

subsection \<open>Reference data\<close>

text \<open>
  A row with the kinematics of the reference input (vy0 = -130, ay = 20, vz0 = -5,
  az = -16), a selection that keeps it, and a fetch client that returns it.
\<close>

definition reference_pitch :: pitch where
  "reference_pitch =
     \<lparr>pitcher_name = Some ''Eury Perez'', pitcher_id = Some 694973,
      pitch_type = Some ''FF'', game_date = Some ''2025-06-09'', batter_hand = Some ''L'',
      px = lit (1 / 4), pz = lit (5 / 2),
      vy0 = lit (- 130), ay = lit 20, vz0 = lit (- 5), az = lit (- 16),
      start_speed = lit (981 / 10), ivb = lit (163 / 10), hb = lit (- 87 / 10),
      extension = lit (69 / 10)\<rparr>"

definition reference_inputs :: inputs where
  "reference_inputs =
     \<lparr>pitcher_name_input = ''Eury Perez'', pitch_type_input = ''FF'',
      batter_hand_input = ''Both'',
      start_date = \<lparr>year = 2025, month = 6, day = 9\<rparr>,
      end_date = \<lparr>year = 2025, month = 12, day = 31\<rparr>\<rparr>"

definition reference_scraper :: "unit scraper" where
  "reference_scraper =
     \<lparr>players_df = [\<lparr>name = ''Eury Perez'', player_id = 694973\<rparr>],
      get_player_games_list = (\<lambda>i. [777001]),
      get_data = (\<lambda>g. ()),
      get_data_df = (\<lambda>u. [reference_pitch])\<rparr>"

text \<open>
  A lob released at 40 ft/s with the same deceleration never reaches the plate plane: its
  radicand is negative. \<open>summary_example\<close> is a two-row derived frame with a null extension.
\<close>

definition slow_pitch :: pitch where
  "slow_pitch = reference_pitch\<lparr>vy0 := lit (- 40)\<rparr>"

definition summary_example :: "derived list" where
  "summary_example =
     [pitch.extend reference_pitch
        (derived.fields (lit (- 122)) (lit (2 / 5)) (lit (- 11)) (lit (- 9 / 100)) (lit (- 26 / 5))),
      pitch.extend (reference_pitch\<lparr>start_speed := lit (2431 / 25), extension := None\<rparr>)
        (derived.fields (lit (- 120)) (lit (2 / 5)) (lit (- 10)) (lit (- 2 / 25)) (lit (- 247 / 50)))]"

subsection \<open>Means of defined values\<close>

text \<open>
  The reading of "the arithmetic mean of a column, rounded to one decimal place" that the
  summary is compared with: the real mean of the non-null values of a column whose non-null
  values are all finite, and a float that is a multiple of 1/10 within 1/20 of it.
\<close>

definition all_finite :: "(derived \<Rightarrow> cell) \<Rightarrow> derived list \<Rightarrow> bool" where
  "all_finite c df = (non_null (map c df) \<noteq> [] \<and> list_all fl_finite (non_null (map c df)))"

definition mean_defined :: "(derived \<Rightarrow> cell) \<Rightarrow> derived list \<Rightarrow> real" where
  "mean_defined c df =
     sum_list (map fval (non_null (map c df))) / real (length (non_null (map c df)))"

definition rounded_mean :: "(derived \<Rightarrow> cell) \<Rightarrow> derived list \<Rightarrow> fl \<Rightarrow> bool" where
  "rounded_mean c df v =
     (fl_finite v \<and> fval v = round1 (mean_defined c df) \<and>
      \<bar>fval v - mean_defined c df\<bar> \<le> 1 / 20 \<and> fval v * 10 \<in> \<int>)"

section \<open>Properties\<close>

subsection \<open>ISO dates: string order is calendar order\<close>

lemma digit_less_iff: "(digit a < digit b) = (a mod 10 < b mod 10)"
  by (simp add: digit_def less_char_def)

lemma digit_eq_iff: "(digit a = digit b) = (a mod 10 = b mod 10)"
proof -
  have "(digit a = digit b) = (\<not> digit a < digit b \<and> \<not> digit b < digit a)"
    by auto
  then show ?thesis
    by (simp only: digit_less_iff) auto
qed

lemma divmod_less:
  fixes a b k :: nat
  assumes "0 < k"
  shows "(a < b) = (a div k < b div k \<or> (a div k = b div k \<and> a mod k < b mod k))"
proof -
  have a: "a = k * (a div k) + a mod k" by simp
  have b: "b = k * (b div k) + b mod k" by simp
  have ma: "a mod k < k" and mb: "b mod k < k" using assms by simp_all
  show ?thesis
  proof (cases "a div k < b div k")
    case True
    then have "a div k + 1 \<le> b div k" by simp
    then have "k * (a div k + 1) \<le> k * (b div k)" by (rule mult_le_mono2)
    then have "k * (a div k) + k \<le> k * (b div k)" by (simp add: algebra_simps)
    then have "k * (a div k) + a mod k < k * (b div k) + b mod k" using ma by linarith
    then have "a < b" by simp
    then show ?thesis using True by simp
  next
    case False
    show ?thesis
    proof (cases "a div k = b div k")
      case True
      have "(a < b) = (k * (a div k) + a mod k < k * (b div k) + b mod k)" by simp
      also have "\<dots> = (a mod k < b mod k)" by (simp only: True nat_add_left_cancel_less)
      finally show ?thesis using True by simp
    next
      case F2: False
      then have "b div k < a div k" using False by simp
      then have "b div k \<le> a div k" by simp
      have "\<not> a < b"
      proof
        assume "a < b"
        then have "a div k \<le> b div k" by (simp add: div_le_mono)
        then show False using \<open>b div k < a div k\<close> by simp
      qed
      then show ?thesis using False F2 by simp
    qed
  qed
qed

lemma divmod_eq:
  fixes a b k :: nat
  shows "(a = b) = (a div k = b div k \<and> a mod k = b mod k)"
proof
  assume "a div k = b div k \<and> a mod k = b mod k"
  then have "k * (a div k) + a mod k = k * (b div k) + b mod k" by simp
  then show "a = b" by (simp only: mult_div_mod_eq)
qed simp

lemma small_mod: "a < 100 \<Longrightarrow> a div 10 mod 10 = a div (10::nat)"
  by simp

lemma pad2_less: "a < 100 \<Longrightarrow> b < 100 \<Longrightarrow> (pad2 a < pad2 b) = (a < b)"
proof -
  assume a: "a < 100" and b: "b < 100"
  have "(pad2 a < pad2 b) = (a div 10 < b div 10 \<or> (a div 10 = b div 10 \<and> a mod 10 < b mod 10))"
    by (simp add: pad2_def digit_less_iff digit_eq_iff small_mod [OF a] small_mod [OF b])
  also have "\<dots> = (a < b)" by (rule divmod_less [symmetric]) simp
  finally show ?thesis .
qed

lemma pad2_inj: "a < 100 \<Longrightarrow> b < 100 \<Longrightarrow> (pad2 a = pad2 b) = (a = b)"
proof -
  assume a: "a < 100" and b: "b < 100"
  have "(pad2 a = pad2 b) = (a div 10 = b div 10 \<and> a mod 10 = b mod 10)"
    by (simp add: pad2_def digit_eq_iff small_mod [OF a] small_mod [OF b])
  also have "\<dots> = (a = b)" by (rule divmod_eq [symmetric])
  finally show ?thesis .
qed

lemma pad2_le: "a < 100 \<Longrightarrow> b < 100 \<Longrightarrow> (pad2 a \<le> pad2 b) = (a \<le> b)"
  using pad2_less [of a b] pad2_inj [of a b] by (auto simp add: le_less)

lemma append_less_same_length:
  fixes u v :: "'a::linorder list"
  shows "length u = length v \<Longrightarrow> (u @ x < v @ y) = (u < v \<or> (u = v \<and> x < y))"
  by (induction u v rule: list_induct2) auto

lemma append_le_same_length:
  fixes u v :: "'a::linorder list"
  shows "length u = length v \<Longrightarrow> (u @ x \<le> v @ y) = (u < v \<or> (u = v \<and> x \<le> y))"
  by (induction u v rule: list_induct2) auto

lemma pad4_split: "pad4 n = pad2 (n div 100) @ pad2 (n mod 100)"
proof -
  have a: "n div 100 div 10 = n div 1000" by (simp add: div_mult2_eq)
  have "n mod (10 * 10) = 10 * (n div 10 mod 10) + n mod 10" by (rule mod_mult2_eq)
  then have m: "n mod 100 = 10 * (n div 10 mod 10) + n mod 10" by simp
  have "(n mod 100) div 10 = n div 10 mod 10"
    by (simp add: m)
  then have b: "digit (n mod 100 div 10) = digit (n div 10)"
    by (simp add: digit_eq_iff)
  have "n mod 100 mod 10 = n mod 10"
    by (simp add: m)
  then have c: "digit (n mod 100) = digit n"
    by (simp add: digit_eq_iff)
  show ?thesis by (simp add: pad4_def pad2_def a b c)
qed

lemma pad4_less: "a < 10000 \<Longrightarrow> b < 10000 \<Longrightarrow> (pad4 a < pad4 b) = (a < b)"
proof -
  assume a: "a < 10000" and b: "b < 10000"
  have l: "length (pad2 (a div 100)) = length (pad2 (b div 100))" by (simp add: pad2_def)
  have da: "a div 100 < 100" using a by simp
  have db: "b div 100 < 100" using b by simp
  have "(pad4 a < pad4 b) = (a div 100 < b div 100 \<or> (a div 100 = b div 100 \<and> a mod 100 < b mod 100))"
    by (simp add: pad4_split append_less_same_length [OF l] pad2_less pad2_inj da db)
  also have "\<dots> = (a < b)" by (rule divmod_less [symmetric]) simp
  finally show ?thesis .
qed

lemma pad4_inj: "a < 10000 \<Longrightarrow> b < 10000 \<Longrightarrow> (pad4 a = pad4 b) = (a = b)"
proof -
  assume a: "a < 10000" and b: "b < 10000"
  have da: "a div 100 < 100" using a by simp
  have db: "b div 100 < 100" using b by simp
  have "(pad4 a = pad4 b) = (pad2 (a div 100) = pad2 (b div 100) \<and> pad2 (a mod 100) = pad2 (b mod 100))"
    by (simp add: pad4_split pad2_def)
  also have "\<dots> = (a div 100 = b div 100 \<and> a mod 100 = b mod 100)"
    by (simp add: pad2_inj da db)
  also have "\<dots> = (a = b)" by (rule divmod_eq [symmetric])
  finally show ?thesis .
qed

lemma str_date_le_iff:
  assumes "valid_date a" "valid_date b"
  shows "(str_date a \<le> str_date b) = date_le a b"
proof -
  have l4: "length (pad4 (year a)) = length (pad4 (year b))" by (simp add: pad4_def)
  have l2: "length (pad2 (month a)) = length (pad2 (month b))" by (simp add: pad2_def)
  have ya: "year a < 10000" "year b < 10000" "month a < 100" "month b < 100" "day a < 100" "day b < 100"
    using assms by (simp_all add: valid_date_def)
  have "(str_date a \<le> str_date b) =
        (pad4 (year a) < pad4 (year b) \<or> (pad4 (year a) = pad4 (year b) \<and>
          (pad2 (month a) < pad2 (month b) \<or> (pad2 (month a) = pad2 (month b) \<and>
            pad2 (day a) \<le> pad2 (day b)))))"
    unfolding str_date_def
    by (simp add: append_le_same_length [OF l4] append_le_same_length [OF l2])
  also have "\<dots> = date_le a b"
    by (simp add: pad4_less pad4_inj pad2_less pad2_inj pad2_le ya date_le_def)
  finally show ?thesis .
qed

lemma str_date_start: "str_date (start_date reference_inputs) = ''2025-06-09''"
  by (simp add: reference_inputs_def str_date_def pad4_def pad2_def digit_def char_of_def bit_0)

lemma str_date_end: "str_date (end_date reference_inputs) = ''2025-12-31''"
  by (simp add: reference_inputs_def str_date_def pad4_def pad2_def digit_def char_of_def bit_0)

subsection \<open>The filter chain\<close>

lemma filter_rows_selected: "filter_rows inp df = filter (selected inp) df"
  by (auto simp add: filter_rows_def hand_filter_def date_filter_def type_filter_def
      name_filter_def selected_def hand_ok_def intro: filter_cong)

lemma selected_hand_irrelevant:
  assumes "h \<noteq> ''Left''" and "h \<noteq> ''Right''" and "batter_hand_input inp = h"
  shows "selected inp (r\<lparr>batter_hand := b\<rparr>) = selected inp r"
  using assms by (simp add: selected_def hand_ok_def)

lemma hand_filter_subseq: "subseq (hand_filter h df) df"
  by (simp add: hand_filter_def)

lemma hand_filter_idem: "hand_filter h (hand_filter h df) = hand_filter h df"
  by (simp add: hand_filter_def)

text \<open>
  C10. The filtered row-set is a subsequence of the input: each surviving row is a row of
  the input as it was, none is repeated beyond its occurrences in the input, and the
  surviving rows keep the input order.
\<close>

theorem filter_rows_subseq: "subseq (filter_rows inp df) df"
proof -
  let ?a = "name_filter (pitcher_name_input inp) df"
  let ?b = "type_filter (pitch_type_input inp) ?a"
  let ?c = "date_filter (start_date inp) (end_date inp) ?b"
  have a: "subseq ?a df"
    by (simp add: name_filter_def)
  have b: "subseq ?b ?a"
    by (simp add: type_filter_def)
  have c: "subseq ?c ?b"
    by (simp add: date_filter_def)
  have d: "subseq (hand_filter (batter_hand_input inp) ?c) ?c"
    by (rule hand_filter_subseq)
  from d c have "subseq (hand_filter (batter_hand_input inp) ?c) ?b"
    by (rule subseq_order.trans)
  then have "subseq (hand_filter (batter_hand_input inp) ?c) ?a"
    using b by (rule subseq_order.trans)
  then have "subseq (hand_filter (batter_hand_input inp) ?c) df"
    using a by (rule subseq_order.trans)
  then show ?thesis
    by (simp only: filter_rows_def)
qed

text \<open>
  C8. Filtering is idempotent: the whole filter stage (pitcher name, pitch type, date
  interval, handedness) applied to its own output gives that output again.
\<close>

theorem filter_rows_idempotent: "filter_rows inp (filter_rows inp df) = filter_rows inp df"
  by (simp add: filter_rows_selected)

text \<open>
  C5. The date filter is inclusive at both ends: for valid dates with start not after
  end, a row whose game date is the ISO string of the start date or of the end date is kept.
\<close>

theorem date_filter_inclusive:
  assumes "valid_date s" and "valid_date e" and "date_le s e"
    and "r \<in> set df"
    and "game_date r = Some (str_date s) \<or> game_date r = Some (str_date e)"
  shows "r \<in> set (date_filter s e df)"
proof -
  have se: "str_date s \<le> str_date e"
    using assms(1-3) by (simp add: str_date_le_iff)
  have "col_ge (game_date r) (str_date s) \<and> col_le (game_date r) (str_date e)"
    using assms(5) se by (auto simp add: col_ge_def col_le_def)
  then show ?thesis
    using assms(4) by (simp add: date_filter_def)
qed

theorem date_filter_inclusive_witness:
  "valid_date (start_date reference_inputs) \<and> valid_date (end_date reference_inputs) \<and>
   date_le (start_date reference_inputs) (end_date reference_inputs) \<and>
   game_date reference_pitch = Some (str_date (start_date reference_inputs)) \<and>
   reference_pitch \<in> set (date_filter (start_date reference_inputs) (end_date reference_inputs)
                             [reference_pitch])"
proof -
  have v: "valid_date (start_date reference_inputs)" "valid_date (end_date reference_inputs)"
    by (simp_all add: reference_inputs_def valid_date_def)
  have l: "date_le (start_date reference_inputs) (end_date reference_inputs)"
    by (simp add: reference_inputs_def date_le_def)
  have g: "game_date reference_pitch = Some (str_date (start_date reference_inputs))"
    by (simp add: str_date_start) (simp add: reference_pitch_def)
  have m: "reference_pitch \<in> set [reference_pitch]" by simp
  show ?thesis
    using v l g date_filter_inclusive [OF v l m disjI1 [OF g]] by simp
qed

text \<open>
  C6. With the handedness selector on \<open>Both\<close>, two frames that agree row by row except
  on the batter-hand column are filtered to frames that agree row by row except on that
  column: the same rows survive. The handedness stage is then no filter at all, the result
  being that of the name, pitch-type and date stages.
\<close>

theorem both_hands_independent:
  assumes "batter_hand_input inp = ''Both''"
    and "list_all2 (\<lambda>r s. s = r\<lparr>batter_hand := batter_hand s\<rparr>) df df'"
  shows "list_all2 (\<lambda>r s. s = r\<lparr>batter_hand := batter_hand s\<rparr>)
           (filter_rows inp df) (filter_rows inp df') \<and>
         filter_rows inp df =
           date_filter (start_date inp) (end_date inp)
             (type_filter (pitch_type_input inp) (name_filter (pitcher_name_input inp) df))"
proof
  have irr: "selected inp (r\<lparr>batter_hand := b\<rparr>) = selected inp r" for r b
    using assms(1) by (intro selected_hand_irrelevant [of "''Both''"]) simp_all
  from assms(2)
  have "list_all2 (\<lambda>r s. s = r\<lparr>batter_hand := batter_hand s\<rparr>)
          (filter (selected inp) df) (filter (selected inp) df')"
  proof (induction rule: list_all2_induct)
    case Nil
    then show ?case by simp
  next
    case (Cons x xs y ys)
    have "selected inp y = selected inp x"
      using Cons.hyps(1) irr [where r = x and b = "batter_hand y"] by simp
    then show ?case using Cons by simp
  qed
  then show "list_all2 (\<lambda>r s. s = r\<lparr>batter_hand := batter_hand s\<rparr>)
           (filter_rows inp df) (filter_rows inp df')"
    by (simp only: filter_rows_selected)
  show "filter_rows inp df =
           date_filter (start_date inp) (end_date inp)
             (type_filter (pitch_type_input inp) (name_filter (pitcher_name_input inp) df))"
    using assms(1) by (simp add: filter_rows_def hand_filter_def)
qed

theorem both_hands_independent_witness:
  "batter_hand_input reference_inputs = ''Both'' \<and>
   list_all2 (\<lambda>r s. s = r\<lparr>batter_hand := batter_hand s\<rparr>)
     [reference_pitch] [reference_pitch\<lparr>batter_hand := Some ''R''\<rparr>] \<and>
   list_all2 (\<lambda>r s. s = r\<lparr>batter_hand := batter_hand s\<rparr>)
     (filter_rows reference_inputs [reference_pitch])
     (filter_rows reference_inputs [reference_pitch\<lparr>batter_hand := Some ''R''\<rparr>]) \<and>
   filter_rows reference_inputs [reference_pitch] = [reference_pitch]"
proof -
  have b: "batter_hand_input reference_inputs = ''Both''"
    by (simp add: reference_inputs_def)
  have a: "list_all2 (\<lambda>r s. s = r\<lparr>batter_hand := batter_hand s\<rparr>)
             [reference_pitch] [reference_pitch\<lparr>batter_hand := Some ''R''\<rparr>]"
    by simp
  have f: "filter_rows reference_inputs [reference_pitch] = [reference_pitch]"
    by (simp add: filter_rows_selected selected_def hand_ok_def str_date_start str_date_end
        col_eq_def col_ge_def col_le_def)
       (simp add: reference_pitch_def reference_inputs_def)
  show ?thesis
    using both_hands_independent [OF b a] b a f by simp
qed

subsection \<open>Early stops\<close>

text \<open>
  C3. When no row survives the filter chain the outcome is \<open>EmptyResult\<close> and the run
  contains neither the derived-column step nor the aggregation step.
\<close>

theorem empty_result_stops:
  assumes "filter_rows inp df = []"
  shows "snd (compute inp df) = EmptyResult \<and> \<not> list_ex is_derivation (fst (compute inp df))"
  using assms by (simp add: compute_def)

theorem empty_result_stops_witness:
  "filter_rows reference_inputs [reference_pitch\<lparr>pitch_type := Some ''SL''\<rparr>] = [] \<and>
   compute reference_inputs [reference_pitch\<lparr>pitch_type := Some ''SL''\<rparr>] =
     ([FilterRows, StWarning, StStop], EmptyResult)"
proof -
  have e: "filter_rows reference_inputs [reference_pitch\<lparr>pitch_type := Some ''SL''\<rparr>] = []"
    by (simp add: filter_rows_selected selected_def col_eq_def)
       (simp add: reference_pitch_def reference_inputs_def)
  show ?thesis
    using empty_result_stops [OF e] e by (simp add: compute_def)
qed

text \<open>
  C4. When the roster has no row whose name equals the selected pitcher name the outcome
  is \<open>NotFound\<close> and the run contains no fetch of game data: no game-list lookup, no
  raw-event retrieval, no conversion to a frame.
\<close>

theorem unknown_pitcher_stops:
  assumes "pitcher_name_input inp \<notin> set (map name (players_df sc))"
  shows "snd (script sc inp) = NotFound \<and> \<not> list_ex is_game_fetch (fst (script sc inp))"
proof -
  have "filter (\<lambda>p. name p = pitcher_name_input inp) (players_df sc) = []"
    using assms by (force simp add: filter_empty_conv)
  then show ?thesis by (simp add: script_def)
qed

theorem unknown_pitcher_stops_witness:
  "script reference_scraper (reference_inputs\<lparr>pitcher_name_input := ''Nobody''\<rparr>) =
     ([GetPlayers, StError, StStop], NotFound)"
proof -
  have n: "pitcher_name_input (reference_inputs\<lparr>pitcher_name_input := ''Nobody''\<rparr>)
             \<notin> set (map name (players_df reference_scraper))"
    by (simp add: reference_scraper_def)
  show ?thesis
    using unknown_pitcher_stops [OF n] by (simp add: script_def reference_scraper_def)
qed

subsection \<open>Rows for the density plot\<close>

text \<open>
  C9, as the code has it. The rows handed to the plot are pairs of the two location
  columns px and pz: in order, the pairs of exactly those rows where neither px nor pz is
  null, the missing value of a column. A row whose px or pz is not-a-number is not null and
  is kept.
\<close>

theorem pdf_rows:
  "map (\<lambda>(a, b). (Some a, Some b)) (pdf df) =
     map (\<lambda>r. (px r, pz r)) (filter (\<lambda>r. px r \<noteq> None \<and> pz r \<noteq> None) df)"
  by (induction df) (auto simp add: pdf_def drop_nulls_def select_px_pz_def to_pandas_def)

text \<open>
  C9, as stated, fails where "undefined" covers not-a-number: the one-row frame whose px
  is not-a-number is handed to the plot with that row in it.
\<close>

theorem nan_px_kept:
  "pdf (derive [reference_pitch\<lparr>px := Some NaN\<rparr>]) = [(NaN, Fin (5 / 2))]"
  by (simp add: pdf_def drop_nulls_def select_px_pz_def to_pandas_def derive_def
      with_vaa_columns_def Let_def pitch.defs derived.defs reference_pitch_def lit_def)

subsection \<open>Float arithmetic on finite values\<close>

lemma mkfin_finite [simp]: "fl_finite (mkfin s x)" "fval (mkfin s x) = x"
  by (simp_all add: mkfin_def)

lemma finite_cases: "fl_finite a \<Longrightarrow> a = Fin (fval a) \<or> a = NegZero"
  by (cases a) simp_all

lemma fl_neg_finite: "fl_finite a \<Longrightarrow> fl_finite (fl_neg a) \<and> fval (fl_neg a) = - fval a"
  by (cases a) simp_all

lemma fl_add_finite:
  "fl_finite a \<Longrightarrow> fl_finite b \<Longrightarrow> fl_finite (fl_add a b) \<and> fval (fl_add a b) = fval a + fval b"
  by (cases a; cases b) (simp_all add: fl_add_def)

lemma fl_sub_finite:
  "fl_finite a \<Longrightarrow> fl_finite b \<Longrightarrow> fl_finite (fl_sub a b) \<and> fval (fl_sub a b) = fval a - fval b"
  using fl_add_finite [of a "fl_neg b"] fl_neg_finite [of b] by (simp add: fl_sub_def)

lemma fl_mul_finite:
  "fl_finite a \<Longrightarrow> fl_finite b \<Longrightarrow> fl_finite (fl_mul a b) \<and> fval (fl_mul a b) = fval a * fval b"
  by (cases a; cases b) (simp_all add: fl_mul_def)

lemma fl_div_finite:
  "fl_finite a \<Longrightarrow> fl_finite b \<Longrightarrow> fval b \<noteq> 0 \<Longrightarrow>
     fl_finite (fl_div a b) \<and> fval (fl_div a b) = fval a / fval b"
  by (cases a; cases b) (simp_all add: fl_div_def)

lemma fl_sqrt_finite:
  "fl_finite a \<Longrightarrow> 0 \<le> fval a \<Longrightarrow> fl_finite (fl_sqrt a) \<and> fval (fl_sqrt a) = sqrt (fval a)"
  by (cases a) simp_all

lemma fl_sqrt_negative: "fl_finite a \<Longrightarrow> fval a < 0 \<Longrightarrow> fl_sqrt a = NaN"
  by (cases a) simp_all

lemma fl_arctan_finite:
  "fl_finite a \<Longrightarrow> fl_finite (fl_arctan a) \<and> fval (fl_arctan a) = arctan (fval a)"
  by (cases a) simp_all

lemma fl_round1_finite:
  "fl_finite a \<Longrightarrow> fl_finite (fl_round1 a) \<and> fval (fl_round1 a) = round1 (fval a)"
  by (cases a) (simp_all add: round1_def)

lemma nan_absorbs [simp]:
  "fl_add NaN b = NaN" "fl_add a NaN = NaN" "fl_mul NaN b = NaN" "fl_mul a NaN = NaN"
  "fl_div NaN b = NaN" "fl_div a NaN = NaN" "fl_sub NaN b = NaN" "fl_sub a NaN = NaN"
  by (simp_all add: fl_add_def fl_mul_def fl_div_def fl_sub_def)

text \<open>The radicand of a row with finite vy0 and ay.\<close>

lemma radicand_finite:
  assumes "fl_finite a" "fl_finite b"
  shows "fl_finite (fl_sub (fl_mul a a) (fl_mul (fl_mul (Fin 2) b) (Fin (y0 - yf)))) \<and>
         fval (fl_sub (fl_mul a a) (fl_mul (fl_mul (Fin 2) b) (Fin (y0 - yf)))) =
           (fval a)\<^sup>2 - 2 * fval b * (y0 - yf)"
proof -
  have 1: "fl_finite (fl_mul a a) \<and> fval (fl_mul a a) = fval a * fval a"
    using assms(1) by (simp add: fl_mul_finite)
  have 2: "fl_finite (fl_mul (Fin 2) b) \<and> fval (fl_mul (Fin 2) b) = 2 * fval b"
    using assms(2) fl_mul_finite [of "Fin 2" b] by simp
  have 3: "fl_finite (fl_mul (fl_mul (Fin 2) b) (Fin (y0 - yf))) \<and>
           fval (fl_mul (fl_mul (Fin 2) b) (Fin (y0 - yf))) = 2 * fval b * (y0 - yf)"
    using 2 fl_mul_finite [of "fl_mul (Fin 2) b" "Fin (y0 - yf)"] by simp
  show ?thesis
    using 1 3 fl_sub_finite [of "fl_mul a a" "fl_mul (fl_mul (Fin 2) b) (Fin (y0 - yf))"]
    by (simp add: power2_eq_square)
qed

lemma derived_sel [simp]:
  "vy_f (with_vaa_columns r) = col_vy_f r"
  "t (with_vaa_columns r) = col_t r (col_vy_f r)"
  "vz_f (with_vaa_columns r) = col_vz_f r (col_t r (col_vy_f r))"
  "vaa_rad (with_vaa_columns r) = col_vaa_rad (col_vz_f r (col_t r (col_vy_f r))) (col_vy_f r)"
  "vaa_deg (with_vaa_columns r) =
     col_vaa_deg (col_vaa_rad (col_vz_f r (col_t r (col_vy_f r))) (col_vy_f r))"
  by (simp_all add: with_vaa_columns_def Let_def pitch.defs derived.defs)

lemma derived_keeps [simp]:
  "px (with_vaa_columns r) = px r" "pz (with_vaa_columns r) = pz r"
  "start_speed (with_vaa_columns r) = start_speed r" "ivb (with_vaa_columns r) = ivb r"
  "hb (with_vaa_columns r) = hb r" "extension (with_vaa_columns r) = extension r"
  "pitch.truncate (with_vaa_columns r) = r"
  by (simp_all add: with_vaa_columns_def Let_def pitch.defs derived.defs)

subsection \<open>The derived columns on finite inputs\<close>

lemma col_vy_f_finite:
  assumes "vy0 r = Some a" "ay r = Some b" "fl_finite a" "fl_finite b"
    and "0 \<le> (fval a)\<^sup>2 - 2 * fval b * (y0 - yf)"
  shows "\<exists>v. col_vy_f r = Some v \<and> fl_finite v \<and>
           fval v = - sqrt ((fval a)\<^sup>2 - 2 * fval b * (y0 - yf))"
proof -
  let ?rad = "fl_sub (fl_mul a a) (fl_mul (fl_mul (Fin 2) b) (Fin (y0 - yf)))"
  have r: "fl_finite ?rad \<and> fval ?rad = (fval a)\<^sup>2 - 2 * fval b * (y0 - yf)"
    using assms(3,4) by (rule radicand_finite)
  then have s: "fl_finite (fl_sqrt ?rad) \<and> fval (fl_sqrt ?rad) = sqrt (fval ?rad)"
    using assms(5) by (simp add: fl_sqrt_finite)
  have n: "fl_finite (fl_neg (fl_sqrt ?rad)) \<and> fval (fl_neg (fl_sqrt ?rad)) = - fval (fl_sqrt ?rad)"
    using s by (simp add: fl_neg_finite)
  have "col_vy_f r = Some (fl_neg (fl_sqrt ?rad))"
    by (simp add: col_vy_f_def c_neg_def c_sqrt_def c_pow2_def lift2_def lit_def assms(1,2))
  then show ?thesis using n s r by simp
qed

lemma col_t_finite:
  assumes "vy0 r = Some a" "ay r = Some b" "fl_finite a" "fl_finite b" "fl_finite v"
    and "fval b \<noteq> 0"
  shows "\<exists>w. col_t r (Some v) = Some w \<and> fl_finite w \<and> fval w = (fval v - fval a) / fval b"
proof -
  have s: "fl_finite (fl_sub v a) \<and> fval (fl_sub v a) = fval v - fval a"
    using assms(3,5) by (simp add: fl_sub_finite)
  then have "fl_finite (fl_div (fl_sub v a) b) \<and> fval (fl_div (fl_sub v a) b) = fval (fl_sub v a) / fval b"
    using assms(4,6) by (simp add: fl_div_finite)
  moreover have "col_t r (Some v) = Some (fl_div (fl_sub v a) b)"
    by (simp add: col_t_def lift2_def assms(1,2))
  ultimately show ?thesis using s by simp
qed

lemma col_vz_f_finite:
  assumes "vz0 r = Some c" "az r = Some d" "fl_finite c" "fl_finite d" "fl_finite w"
  shows "\<exists>u. col_vz_f r (Some w) = Some u \<and> fl_finite u \<and> fval u = fval c + fval d * fval w"
proof -
  have m: "fl_finite (fl_mul d w) \<and> fval (fl_mul d w) = fval d * fval w"
    using assms(4,5) by (simp add: fl_mul_finite)
  then have "fl_finite (fl_add c (fl_mul d w)) \<and> fval (fl_add c (fl_mul d w)) = fval c + fval (fl_mul d w)"
    using assms(3) by (simp add: fl_add_finite)
  moreover have "col_vz_f r (Some w) = Some (fl_add c (fl_mul d w))"
    by (simp add: col_vz_f_def lift2_def assms(1,2))
  ultimately show ?thesis using m by simp
qed

lemma col_vaa_deg_value:
  "col_vaa_deg (col_vaa_rad (Some u) (Some v)) =
     Some (fl_mul (fl_arctan (fl_div (fl_neg u) v)) (Fin (180 / pi)))"
  by (simp add: col_vaa_deg_def col_vaa_rad_def c_arctan_def c_neg_def lift2_def lit_def)

lemma vaa_deg_finite:
  assumes "fl_finite u" "fl_finite v" "fval v \<noteq> 0"
  shows "fl_finite (fl_mul (fl_arctan (fl_div (fl_neg u) v)) (Fin (180 / pi))) \<and>
         fval (fl_mul (fl_arctan (fl_div (fl_neg u) v)) (Fin (180 / pi))) =
           arctan (- fval u / fval v) * (180 / pi)"
proof -
  have n: "fl_finite (fl_neg u) \<and> fval (fl_neg u) = - fval u"
    using assms(1) by (simp add: fl_neg_finite)
  then have d: "fl_finite (fl_div (fl_neg u) v) \<and> fval (fl_div (fl_neg u) v) = - fval u / fval v"
    using assms(2,3) fl_div_finite [of "fl_neg u" v] by simp
  then have a: "fl_finite (fl_arctan (fl_div (fl_neg u) v)) \<and>
                fval (fl_arctan (fl_div (fl_neg u) v)) = arctan (- fval u / fval v)"
    using fl_arctan_finite [of "fl_div (fl_neg u) v"] by simp
  then show ?thesis
    using fl_mul_finite [of "fl_arctan (fl_div (fl_neg u) v)" "Fin (180 / pi)"] by simp
qed

lemma fl_mul_self_not_negzero: "fl_finite a \<Longrightarrow> fl_mul a a \<noteq> NegZero"
  by (cases a) (simp_all add: fl_mul_def mkfin_def)

lemma fl_sub_zero: "fl_finite p \<Longrightarrow> fl_finite q \<Longrightarrow> p \<noteq> NegZero \<Longrightarrow> fval p - fval q = 0 \<Longrightarrow> fl_sub p q = Fin 0"
  by (cases p; cases q) (simp_all add: fl_sub_def fl_add_def mkfin_def)

lemma col_vy_f_zero:
  assumes "vy0 r = Some a" "ay r = Some b" "fl_finite a" "fl_finite b"
    and "(fval a)\<^sup>2 - 2 * fval b * (y0 - yf) = 0"
  shows "col_vy_f r = Some NegZero"
proof -
  let ?q = "fl_mul (fl_mul (Fin 2) b) (Fin (y0 - yf))"
  have 2: "fl_finite (fl_mul (Fin 2) b) \<and> fval (fl_mul (Fin 2) b) = 2 * fval b"
    using assms(4) fl_mul_finite [of "Fin 2" b] by simp
  have q: "fl_finite ?q \<and> fval ?q = 2 * fval b * (y0 - yf)"
    using 2 fl_mul_finite [of "fl_mul (Fin 2) b" "Fin (y0 - yf)"] by simp
  have p: "fl_finite (fl_mul a a) \<and> fval (fl_mul a a) = fval a * fval a"
    using assms(3) by (simp add: fl_mul_finite)
  have "fval (fl_mul a a) - fval ?q = 0"
    using p q assms(5) by (simp add: power2_eq_square)
  then have "fl_sub (fl_mul a a) ?q = Fin 0"
    using p q fl_mul_self_not_negzero [OF assms(3)] by (intro fl_sub_zero) simp_all
  then show ?thesis
    by (simp add: col_vy_f_def c_neg_def c_sqrt_def c_pow2_def lift2_def lit_def assms(1,2) mkfin_def)
qed

lemma vaa_deg_vertical:
  "fl_finite u \<Longrightarrow>
     fl_mul (fl_arctan (fl_div (fl_neg u) NegZero)) (Fin (180 / pi)) =
       (if fval u < 0 then Fin (- 90) else if 0 < fval u then Fin 90 else NaN)"
  by (cases u) (simp_all add: fl_div_def fl_mul_def mkfin_def mkinf_def)

lemma vaa_deg_defined:
  assumes "vy0 r = Some a" "ay r = Some b" "vz0 r = Some c" "az r = Some d"
    and "fl_finite a" "fl_finite b" "fl_finite c" "fl_finite d"
    and "fval b \<noteq> 0"
    and "0 < (fval a)\<^sup>2 - 2 * fval b * (y0 - yf)"
  shows "\<exists>g. vaa_deg (with_vaa_columns r) = Some g \<and> fl_finite g"
proof -
  have nn: "0 \<le> (fval a)\<^sup>2 - 2 * fval b * (y0 - yf)" using assms(10) by simp
  obtain v where v: "col_vy_f r = Some v" "fl_finite v"
      "fval v = - sqrt ((fval a)\<^sup>2 - 2 * fval b * (y0 - yf))"
    using col_vy_f_finite [OF assms(1,2,5,6) nn] by blast
  obtain w where w: "col_t r (Some v) = Some w" "fl_finite w"
    using col_t_finite [OF assms(1,2,5,6) v(2) assms(9)] by blast
  obtain u where u: "col_vz_f r (Some w) = Some u" "fl_finite u"
    using col_vz_f_finite [OF assms(3,4,7,8) w(2)] by blast
  have "fval v \<noteq> 0" using assms(10) v(3) by simp
  then show ?thesis
    using vaa_deg_finite [OF u(2) v(2)] by (simp add: v(1) w(1) u(1) col_vaa_deg_value)
qed

subsection \<open>Bounds for the reference input\<close>

text \<open>
  Partial sums of the alternating arctangent series bracket the arctangent; with the
  Machin-Euler formula they bracket pi.
\<close>

lemma arctan_partial_sums:
  fixes x :: real
  assumes "0 < x" "x \<le> 1"
  shows "(\<Sum>i<2 * n. (- 1) ^ i * (1 / real (i * 2 + 1) * x ^ (i * 2 + 1))) \<le> arctan x"
    and "arctan x \<le> (\<Sum>i<2 * n + 1. (- 1) ^ i * (1 / real (i * 2 + 1) * x ^ (i * 2 + 1)))"
proof -
  have ax: "\<bar>x\<bar> \<le> 1" using assms by simp
  let ?a = "\<lambda>n. 1 / real (n * 2 + 1) * x ^ (n * 2 + 1)"
  have pos: "0 < ?a 0" using assms by simp
  have "(\<Sum>i. (- 1) ^ i * ?a i) \<in>
          {\<Sum>i<2 * n. (- 1) ^ i * ?a i .. \<Sum>i<2 * n + 1. (- 1) ^ i * ?a i}"
    using summable_Leibniz(2) [OF zeroseq_arctan_series [OF ax] monoseq_arctan_series [OF ax]] pos
    by blast
  then show "(\<Sum>i<2 * n. (- 1) ^ i * ?a i) \<le> arctan x"
    and "arctan x \<le> (\<Sum>i<2 * n + 1. (- 1) ^ i * ?a i)"
    by (simp_all add: arctan_series [OF ax])
qed

lemma arctan_lower9:
  fixes x :: real
  assumes "0 < x" "x \<le> 1"
  shows "x - x^3 / 3 + x^5 / 5 - x^7 / 7 \<le> arctan x"
  using arctan_partial_sums(1) [OF assms, of 2]
  by (simp add: eval_nat_numeral)

lemma arctan_upper9:
  fixes x :: real
  assumes "0 < x" "x \<le> 1"
  shows "arctan x \<le> x - x^3 / 3 + x^5 / 5 - x^7 / 7 + x^9 / 9"
  using arctan_partial_sums(2) [OF assms, of 2]
  by (simp add: eval_nat_numeral)

lemma pi_bounds: "314159265 / 10 ^ 8 < pi" "pi < 314159266 / 10 ^ 8"
proof -
  have a: "(0::real) < 1 / 7" "(1 / 7 :: real) \<le> 1" by simp_all
  have b: "(0::real) < 3 / 79" "(3 / 79 :: real) \<le> 1" by simp_all
  have al: "(\<Sum>i<2 * 3. (- 1) ^ i * (1 / real (i * 2 + 1) * (1 / 7) ^ (i * 2 + 1))) \<le> arctan (1 / 7)"
    by (rule arctan_partial_sums(1) [OF a])
  have au: "arctan (1 / 7) \<le> (\<Sum>i<2 * 3 + 1. (- 1) ^ i * (1 / real (i * 2 + 1) * (1 / 7) ^ (i * 2 + 1)))"
    by (rule arctan_partial_sums(2) [OF a])
  have bl: "(\<Sum>i<2 * 2. (- 1) ^ i * (1 / real (i * 2 + 1) * (3 / 79) ^ (i * 2 + 1))) \<le> arctan (3 / 79)"
    by (rule arctan_partial_sums(1) [OF b])
  have bu: "arctan (3 / 79) \<le> (\<Sum>i<2 * 2 + 1. (- 1) ^ i * (1 / real (i * 2 + 1) * (3 / 79) ^ (i * 2 + 1)))"
    by (rule arctan_partial_sums(2) [OF b])
  have al': "(14189705460 / 10 ^ 11 :: real) < arctan (1 / 7)"
    using al by (simp add: eval_nat_numeral)
  have au': "arctan (1 / 7) < (14189705461 / 10 ^ 11 :: real)"
    using au by (simp add: eval_nat_numeral)
  have bl': "(3795644518 / 10 ^ 11 :: real) < arctan (3 / 79)"
    using bl by (simp add: eval_nat_numeral)
  have bu': "arctan (3 / 79) < (3795644519 / 10 ^ 11 :: real)"
    using bu by (simp add: eval_nat_numeral)
  have p: "pi = 4 * (5 * arctan (1 / 7) + 2 * arctan (3 / 79))"
    using machin_Euler by simp
  show "314159265 / 10 ^ 8 < pi"
    using al' bl' by (simp only: p) simp
  show "pi < 314159266 / 10 ^ 8"
    using au' bu' by (simp only: p) simp
qed

lemma sqrt_reference_bounds:
  "122297451595 / 10 ^ 9 < sqrt (44870 / 3)" "sqrt (44870 / 3) < 122297451596 / 10 ^ 9"
proof -
  have "(122297451595 / 10 ^ 9 :: real)\<^sup>2 < 44870 / 3" by (simp add: power2_eq_square)
  then show "122297451595 / 10 ^ 9 < sqrt (44870 / 3)" by (rule real_less_rsqrt)
  have "(44870 / 3 :: real) < (122297451596 / 10 ^ 9)\<^sup>2" by (simp add: power2_eq_square)
  then show "sqrt (44870 / 3) < 122297451596 / 10 ^ 9" by (intro real_less_lsqrt) simp_all
qed

lemma reference_ratio_bounds:
  fixes s :: real
  assumes "122297451595 / 10 ^ 9 < s" "s < 122297451596 / 10 ^ 9"
  shows "912695937 / 10 ^ 10 < 109 / s - 4 / 5" "109 / s - 4 / 5 < 912695938 / 10 ^ 10"
proof -
  have pos: "0 < s" using assms(1) by simp
  have "(912695937 / 10 ^ 10 + 4 / 5) * s < 109"
  proof -
    have "(912695937 / 10 ^ 10 + 4 / 5) * s < (912695937 / 10 ^ 10 + 4 / 5) * (122297451596 / 10 ^ 9)"
      using assms(2) by (intro mult_strict_left_mono) simp_all
    also have "\<dots> < 109" by simp
    finally show ?thesis .
  qed
  then have "912695937 / 10 ^ 10 + 4 / 5 < 109 / s"
    using pos by (simp add: pos_less_divide_eq)
  then show "912695937 / 10 ^ 10 < 109 / s - 4 / 5" by simp
  have "109 < (912695938 / 10 ^ 10 + 4 / 5) * s"
  proof -
    have "109 < (912695938 / 10 ^ 10 + 4 / 5) * (122297451595 / 10 ^ 9 :: real)" by simp
    also have "\<dots> < (912695938 / 10 ^ 10 + 4 / 5) * s"
      using assms(1) by (intro mult_strict_left_mono) simp_all
    finally show ?thesis .
  qed
  then have "109 / s < 912695938 / 10 ^ 10 + 4 / 5"
    using pos by (simp add: pos_divide_less_eq)
  then show "109 / s - 4 / 5 < 912695938 / 10 ^ 10" by simp
qed

lemma arctan_reference_bounds:
  fixes x :: real
  assumes "912695937 / 10 ^ 10 < x" "x < 912695938 / 10 ^ 10"
  shows "910174233 / 10 ^ 10 < arctan x" "arctan x < 910174236 / 10 ^ 10"
proof -
  let ?l = "912695937 / 10 ^ 10 :: real" and ?u = "912695938 / 10 ^ 10 :: real"
  have "?l - ?l ^ 3 / 3 + ?l ^ 5 / 5 - ?l ^ 7 / 7 \<le> arctan ?l"
    by (rule arctan_lower9) simp_all
  then have "910174233 / 10 ^ 10 < arctan ?l" by (simp add: eval_nat_numeral)
  also have "arctan ?l < arctan x" using assms(1) by (simp only: arctan_less_iff)
  finally show "910174233 / 10 ^ 10 < arctan x" .
  have "arctan x < arctan ?u" using assms(2) by (simp only: arctan_less_iff)
  also have "arctan ?u \<le> ?u - ?u ^ 3 / 3 + ?u ^ 5 / 5 - ?u ^ 7 / 7 + ?u ^ 9 / 9"
    by (rule arctan_upper9) simp_all
  also have "\<dots> < 910174236 / 10 ^ 10" by (simp add: eval_nat_numeral)
  finally show "arctan x < 910174236 / 10 ^ 10" .
qed

lemma degrees_reference_bounds:
  fixes a :: real
  assumes "910174233 / 10 ^ 10 < a" "a < 910174236 / 10 ^ 10"
  shows "\<bar>- a * 180 / pi - (- 52149142 / 10 ^ 7)\<bar> < 1 / 10 ^ 6"
proof -
  have pl: "314159265 / 10 ^ 8 < pi" and pu: "pi < 314159266 / 10 ^ 8"
    by (rule pi_bounds)+
  have pos: "0 < pi" by simp
  have "(52149142 / 10 ^ 7 - 1 / 10 ^ 6) * pi < (52149142 / 10 ^ 7 - 1 / 10 ^ 6) * (314159266 / 10 ^ 8)"
    using pu by (intro mult_strict_left_mono) simp_all
  also have "\<dots> < (910174233 / 10 ^ 10) * 180" by simp
  also have "\<dots> < a * 180" using assms(1) by simp
  finally have lo: "52149142 / 10 ^ 7 - 1 / 10 ^ 6 < a * 180 / pi"
    using pos by (simp add: pos_less_divide_eq)
  have "a * 180 < (910174236 / 10 ^ 10) * 180" using assms(2) by simp
  also have "\<dots> < (52149142 / 10 ^ 7 + 1 / 10 ^ 6) * (314159265 / 10 ^ 8 :: real)" by simp
  also have "\<dots> < (52149142 / 10 ^ 7 + 1 / 10 ^ 6) * pi"
    using pl by (intro mult_strict_left_mono) simp_all
  finally have hi: "a * 180 / pi < 52149142 / 10 ^ 7 + 1 / 10 ^ 6"
    using pos by (simp add: pos_divide_less_eq)
  have eq: "- a * 180 / pi = - (a * 180 / pi)" by simp
  have "\<bar>- (a * 180 / pi) - (- 52149142 / 10 ^ 7)\<bar> < 1 / 10 ^ 6"
    using lo hi by linarith
  then show ?thesis by (simp only: eq)
qed

lemma reference_radicand: "(fval (Fin (- 130)))\<^sup>2 - 2 * fval (Fin 20) * (y0 - yf) = 44870 / 3"
  by (simp add: y0_def yf_def)

lemma slow_radicand: "(fval (Fin (- 40)))\<^sup>2 - 2 * fval (Fin 20) * (y0 - yf) < 0"
  by (simp add: y0_def yf_def)

lemma reference_fields:
  "vy0 reference_pitch = Some (Fin (- 130))" "ay reference_pitch = Some (Fin 20)"
  "vz0 reference_pitch = Some (Fin (- 5))" "az reference_pitch = Some (Fin (- 16))"
  by (simp_all add: reference_pitch_def lit_def)

lemma reference_vaa_defined:
  "\<exists>g. vaa_deg (with_vaa_columns reference_pitch) = Some g \<and> fl_finite g"
proof (rule vaa_deg_defined)
  show "vy0 reference_pitch = Some (Fin (- 130))" by (simp add: reference_pitch_def lit_def)
  show "ay reference_pitch = Some (Fin 20)" by (simp add: reference_pitch_def lit_def)
  show "vz0 reference_pitch = Some (Fin (- 5))" by (simp add: reference_pitch_def lit_def)
  show "az reference_pitch = Some (Fin (- 16))" by (simp add: reference_pitch_def lit_def)
  show "0 < (fval (Fin (- 130)))\<^sup>2 - 2 * fval (Fin 20) * (y0 - yf)"
    by (simp add: y0_def yf_def)
qed simp_all

lemma slow_pitch_fields:
  "vy0 slow_pitch = Some (Fin (- 40))" "ay slow_pitch = Some (Fin 20)"
  "vz0 slow_pitch = Some (Fin (- 5))" "az slow_pitch = Some (Fin (- 16))"
  by (simp_all add: slow_pitch_def reference_pitch_def lit_def)

lemma reference_selected: "selected reference_inputs reference_pitch"
  by (simp add: selected_def hand_ok_def str_date_start str_date_end col_eq_def col_ge_def col_le_def)
     (simp add: reference_pitch_def reference_inputs_def)

lemma slow_selected: "selected reference_inputs slow_pitch"
  by (simp add: selected_def hand_ok_def str_date_start str_date_end col_eq_def col_ge_def col_le_def)
     (simp add: slow_pitch_def reference_pitch_def reference_inputs_def)

subsection \<open>Vertical approach angle\<close>

text \<open>
  C1. For a row whose vy0, ay, vz0 and az are finite numbers, with ay not zero and the
  radicand vy0 vy0 - 2 ay (y0 - yf) not negative, where y0 = 50 and yf = 17/12, the derived
  columns are finite numbers with vy_f = - sqrt (radicand), t = (vy_f - vy0) / ay and
  vz_f = vz0 + az t, and vaa_deg is the float arctangent of - vz_f / vy_f times 180 / pi:
  the real number arctan (- vz_f / vy_f) 180 / pi when the radicand is positive, and, when
  it is zero (vy_f is the negative zero), -90, 90 or not-a-number as vz_f is negative,
  positive or zero. At the reference input vy0 = -130, ay = 20, vz0 = -5, az = -16 the
  values of vy_f, t, vz_f and vaa_deg lie within 1e-6 of -122.2974516, 0.3851274,
  -11.1620387 and -5.2149142.
\<close>

theorem vaa_formula:
  assumes "vy0 r = Some a" and "ay r = Some b" and "vz0 r = Some c" and "az r = Some d"
    and "fl_finite a" and "fl_finite b" and "fl_finite c" and "fl_finite d"
    and "fval b \<noteq> 0"
    and "0 \<le> (fval a)\<^sup>2 - 2 * fval b * (y0 - yf)"
  shows "\<exists>v w u g.
           vy_f (with_vaa_columns r) = Some v \<and> fl_finite v \<and>
           fval v = - sqrt ((fval a)\<^sup>2 - 2 * fval b * (y0 - yf)) \<and>
           t (with_vaa_columns r) = Some w \<and> fl_finite w \<and>
           fval w = (fval v - fval a) / fval b \<and>
           vz_f (with_vaa_columns r) = Some u \<and> fl_finite u \<and>
           fval u = fval c + fval d * fval w \<and>
           vaa_deg (with_vaa_columns r) = Some g \<and>
           g = fl_mul (fl_arctan (fl_div (fl_neg u) v)) (Fin (180 / pi)) \<and>
           (if 0 < (fval a)\<^sup>2 - 2 * fval b * (y0 - yf)
            then fl_finite g \<and> fval g = arctan (- fval u / fval v) * 180 / pi
            else g = (if fval u < 0 then Fin (- 90) else if 0 < fval u then Fin 90 else NaN))"
proof -
  obtain v where v: "col_vy_f r = Some v" "fl_finite v"
      "fval v = - sqrt ((fval a)\<^sup>2 - 2 * fval b * (y0 - yf))"
    using col_vy_f_finite [OF assms(1,2,5,6,10)] by blast
  obtain w where w: "col_t r (Some v) = Some w" "fl_finite w" "fval w = (fval v - fval a) / fval b"
    using col_t_finite [OF assms(1,2,5,6) v(2) assms(9)] by blast
  obtain u where u: "col_vz_f r (Some w) = Some u" "fl_finite u" "fval u = fval c + fval d * fval w"
    using col_vz_f_finite [OF assms(3,4,7,8) w(2)] by blast
  let ?g = "fl_mul (fl_arctan (fl_div (fl_neg u) v)) (Fin (180 / pi))"
  have g: "vaa_deg (with_vaa_columns r) = Some ?g"
    by (simp add: v(1) w(1) u(1) col_vaa_deg_value)
  have last: "if 0 < (fval a)\<^sup>2 - 2 * fval b * (y0 - yf)
      then fl_finite ?g \<and> fval ?g = arctan (- fval u / fval v) * 180 / pi
      else ?g = (if fval u < 0 then Fin (- 90) else if 0 < fval u then Fin 90 else NaN)"
  proof (cases "0 < (fval a)\<^sup>2 - 2 * fval b * (y0 - yf)")
    case True
    then have "fval v \<noteq> 0" using v(3) by simp
    then show ?thesis using True vaa_deg_finite [OF u(2) v(2)] by simp
  next
    case False
    then have z: "(fval a)\<^sup>2 - 2 * fval b * (y0 - yf) = 0" using assms(10) by simp
    have "v = NegZero"
      using col_vy_f_zero [OF assms(1,2,5,6) z] v(1) by simp
    then show ?thesis using False vaa_deg_vertical [OF u(2)] by simp
  qed
  have 1: "vy_f (with_vaa_columns r) = Some v" by (simp add: v(1))
  have 2: "t (with_vaa_columns r) = Some w" by (simp add: v(1) w(1))
  have 3: "vz_f (with_vaa_columns r) = Some u" by (simp add: v(1) w(1) u(1))
  show ?thesis
    using 1 2 3 g v(2,3) w(2,3) u(2,3) last by blast
qed

theorem vaa_formula_witness:
  "\<exists>v w u g.
     vy_f (with_vaa_columns reference_pitch) = Some v \<and>
     \<bar>fval v - (- 1222974516 / 10 ^ 7)\<bar> < 1 / 10 ^ 6 \<and>
     t (with_vaa_columns reference_pitch) = Some w \<and>
     \<bar>fval w - 3851274 / 10 ^ 7\<bar> < 1 / 10 ^ 6 \<and>
     vz_f (with_vaa_columns reference_pitch) = Some u \<and>
     \<bar>fval u - (- 111620387 / 10 ^ 7)\<bar> < 1 / 10 ^ 6 \<and>
     vaa_deg (with_vaa_columns reference_pitch) = Some g \<and>
     \<bar>fval g - (- 52149142 / 10 ^ 7)\<bar> < 1 / 10 ^ 6"
proof -
  define s :: real where "s = sqrt (44870 / 3)"
  have sl: "122297451595 / 10 ^ 9 < s" and su: "s < 122297451596 / 10 ^ 9"
    unfolding s_def by (rule sqrt_reference_bounds)+
  have rad: "(fval (Fin (- 130)))\<^sup>2 - 2 * fval (Fin 20) * (y0 - yf) = 44870 / 3"
    by (rule reference_radicand)
  have nz: "fval (Fin 20) \<noteq> 0" by simp
  have nn: "0 \<le> (fval (Fin (- 130)))\<^sup>2 - 2 * fval (Fin 20) * (y0 - yf)"
    by (simp add: y0_def yf_def)
  have fin: "fl_finite (Fin (- 130))" "fl_finite (Fin 20)" "fl_finite (Fin (- 5))"
    "fl_finite (Fin (- 16))"
    by simp_all
  note th = vaa_formula [OF reference_fields fin nz nn, unfolded rad]
  from th obtain v w u g where
    v: "vy_f (with_vaa_columns reference_pitch) = Some v" "fval v = - sqrt (44870 / 3)" and
    w: "t (with_vaa_columns reference_pitch) = Some w"
       "fval w = (fval v - fval (Fin (- 130))) / fval (Fin 20)" and
    u: "vz_f (with_vaa_columns reference_pitch) = Some u"
       "fval u = fval (Fin (- 5)) + fval (Fin (- 16)) * fval w" and
    g: "vaa_deg (with_vaa_columns reference_pitch) = Some g"
       "if (0::real) < 44870 / 3
        then fl_finite g \<and> fval g = arctan (- fval u / fval v) * 180 / pi
        else g = (if fval u < 0 then Fin (- 90) else if 0 < fval u then Fin 90 else NaN)"
    by blast
  have vs: "fval v = - s" by (simp only: v(2) s_def)
  have gv0: "fval g = arctan (- fval u / fval v) * 180 / pi"
    using g(2) by simp
  have sl': "122297451595 / 1000000000 < s" and su': "s < 122297451596 / 1000000000"
    using sl su by simp_all
  have "\<bar>- s - (- 1222974516 / 10000000)\<bar> < 1 / 1000000"
    using sl' su' by linarith
  then have vb: "\<bar>fval v - (- 1222974516 / 10 ^ 7)\<bar> < 1 / 10 ^ 6"
    by (simp only: vs) simp
  have wv: "fval w = (130 - s) / 20" by (simp add: w(2) vs)
  have "\<bar>(130 - s) / 20 - 3851274 / 10000000\<bar> < 1 / 1000000"
    using sl' su' by argo
  then have wb: "\<bar>fval w - 3851274 / 10 ^ 7\<bar> < 1 / 10 ^ 6"
    by (simp only: wv) simp
  have "fval u = - 5 + - 16 * ((130 - s) / 20)" by (simp add: u(2) wv)
  then have uv: "fval u = 4 / 5 * s - 109" by argo
  have "\<bar>4 / 5 * s - 109 - (- 111620387 / 10000000)\<bar> < 1 / 1000000"
    using sl' su' by linarith
  then have ub: "\<bar>fval u - (- 111620387 / 10 ^ 7)\<bar> < 1 / 10 ^ 6"
    by (simp only: uv) simp
  have spos: "0 < s" using sl by simp
  have q: "- fval u / fval v = - (109 / s - 4 / 5)"
    using spos by (simp add: uv vs field_simps)
  have "fval g = arctan (- (109 / s - 4 / 5)) * 180 / pi"
    by (simp only: gv0 q)
  then have gv: "fval g = - arctan (109 / s - 4 / 5) * 180 / pi"
    by (simp only: arctan_minus)
  have xb: "912695937 / 10 ^ 10 < 109 / s - 4 / 5" "109 / s - 4 / 5 < 912695938 / 10 ^ 10"
    using sl su by (rule reference_ratio_bounds)+
  have ab: "910174233 / 10 ^ 10 < arctan (109 / s - 4 / 5)"
    "arctan (109 / s - 4 / 5) < 910174236 / 10 ^ 10"
    using xb by (rule arctan_reference_bounds)+
  have gb: "\<bar>fval g - (- 52149142 / 10 ^ 7)\<bar> < 1 / 10 ^ 6"
    using degrees_reference_bounds [OF ab] by (simp only: gv)
  show ?thesis
    using v(1) vb w(1) wb u(1) ub g(1) gb by blast
qed

subsection \<open>Summary row\<close>

lemma foldl_add_nan: "foldl fl_add NaN vs = NaN"
  by (induction vs) simp_all

lemma foldl_add_absorbs: "NaN \<in> set vs \<Longrightarrow> foldl fl_add z vs = NaN"
  by (induction vs arbitrary: z) (auto simp add: foldl_add_nan)

lemma non_null_mem: "Some v \<in> set cs \<Longrightarrow> v \<in> set (non_null cs)"
  by (induction cs rule: non_null.induct) auto

lemma col_mean_nan: "Some NaN \<in> set cs \<Longrightarrow> col_mean cs = Some NaN"
proof -
  assume "Some NaN \<in> set cs"
  then have m: "NaN \<in> set (non_null cs)" by (rule non_null_mem)
  then have "non_null cs \<noteq> []" by auto
  then show ?thesis
    using foldl_add_absorbs [OF m] by (simp add: col_mean_def Let_def)
qed

lemma stat_nan: "r \<in> set df \<Longrightarrow> c r = Some NaN \<Longrightarrow> stat c df = NaN"
proof -
  assume "r \<in> set df" "c r = Some NaN"
  then have "Some NaN \<in> set (map c df)" by force
  then have "col_mean (map c df) = Some NaN" by (rule col_mean_nan)
  then show ?thesis by (simp add: stat_def c_round1_def to_pandas_def)
qed

lemma vaa_deg_nan:
  assumes "vy0 r = Some a" "ay r = Some b" "vz0 r = Some c" "az r = Some d"
    and "fl_finite a" "fl_finite b"
    and "(fval a)\<^sup>2 - 2 * fval b * (y0 - yf) < 0"
  shows "vaa_deg (with_vaa_columns r) = Some NaN"
proof -
  let ?rad = "fl_sub (fl_mul a a) (fl_mul (fl_mul (Fin 2) b) (Fin (y0 - yf)))"
  have "fl_finite ?rad \<and> fval ?rad = (fval a)\<^sup>2 - 2 * fval b * (y0 - yf)"
    using assms(5,6) by (rule radicand_finite)
  then have "fl_sqrt ?rad = NaN"
    using assms(7) by (simp add: fl_sqrt_negative)
  then have v: "col_vy_f r = Some NaN"
    by (simp add: col_vy_f_def c_neg_def c_sqrt_def c_pow2_def lift2_def lit_def assms(1,2))
  have w: "col_t r (Some NaN) = Some NaN"
    by (simp add: col_t_def lift2_def assms(1,2))
  have u: "col_vz_f r (Some NaN) = Some NaN"
    by (simp add: col_vz_f_def lift2_def assms(3,4))
  show ?thesis
    by (simp add: v w u col_vaa_deg_value)
qed

text \<open>
  C2, as the code has it. For a filtered row-set with a row whose vy0 and ay are finite,
  whose radicand is negative and whose vz0 and az are not null, the vertical approach angle
  of that row is not-a-number, and the run ends normally with a summary whose VAA scalar is
  not-a-number: the column mean skips nulls only, so the value takes part in the mean.
\<close>

theorem negative_radicand_nan:
  assumes "r \<in> set (filter_rows inp df)"
    and "vy0 r = Some a" and "ay r = Some b" and "vz0 r = Some c" and "az r = Some d"
    and "fl_finite a" and "fl_finite b"
    and "(fval a)\<^sup>2 - 2 * fval b * (y0 - yf) < 0"
  shows "vaa_deg (with_vaa_columns r) = Some NaN \<and>
         (\<exists>s p. snd (compute inp df) = Rendered s p \<and> VAA s = NaN)"
proof -
  have n: "vaa_deg (with_vaa_columns r) = Some NaN"
    using assms(2-8) by (rule vaa_deg_nan)
  have ne: "filter_rows inp df \<noteq> []" using assms(1) by auto
  have "with_vaa_columns r \<in> set (derive (filter_rows inp df))"
    using assms(1) by (simp add: derive_def)
  then have "stat vaa_deg (derive (filter_rows inp df)) = NaN"
    using n by (rule stat_nan)
  then show ?thesis
    using n ne by (simp add: compute_def Let_def summary_def)
qed

theorem negative_radicand_nan_witness:
  "slow_pitch \<in> set (filter_rows reference_inputs [reference_pitch, slow_pitch]) \<and>
   (fval (Fin (- 40)))\<^sup>2 - 2 * fval (Fin 20) * (y0 - yf) < 0 \<and>
   vaa_deg (with_vaa_columns slow_pitch) = Some NaN \<and>
   (\<exists>s p. snd (compute reference_inputs [reference_pitch, slow_pitch]) = Rendered s p \<and> VAA s = NaN)"
proof -
  have m: "slow_pitch \<in> set (filter_rows reference_inputs [reference_pitch, slow_pitch])"
    by (simp add: filter_rows_selected slow_selected)
  have f: "fl_finite (Fin (- 40))" "fl_finite (Fin 20)" by simp_all
  show ?thesis
    using negative_radicand_nan [OF m slow_pitch_fields f slow_radicand] m slow_radicand
    by simp
qed

lemma round_half_up_close:
  fixes y :: real
  shows "\<bar>of_int \<lfloor>y + 1 / 2\<rfloor> - y\<bar> \<le> 1 / 2"
  by linarith

lemma round1_close: "\<bar>round1 x - x\<bar> \<le> 1 / 20"
proof (cases "0 \<le> x")
  case True
  define k :: real where "k = of_int \<lfloor>x * 10 + 1 / 2\<rfloor>"
  have "\<bar>k - x * 10\<bar> \<le> 1 / 2"
    unfolding k_def by (rule round_half_up_close)
  then have c: "\<bar>k / 10 - x\<bar> \<le> 1 / 20" by linarith
  show ?thesis
  proof (cases "x = 0")
    case True
    then show ?thesis by (simp add: round1_def)
  next
    case False
    then have "round1 x = k / 10"
      using \<open>0 \<le> x\<close> by (simp add: round1_def sgn_if k_def)
    then show ?thesis using c by (simp only:)
  qed
next
  case False
  define k :: real where "k = of_int \<lfloor>(- x) * 10 + 1 / 2\<rfloor>"
  have "\<bar>k - (- x) * 10\<bar> \<le> 1 / 2"
    unfolding k_def by (rule round_half_up_close)
  then have c: "\<bar>- (k / 10) - x\<bar> \<le> 1 / 20" by linarith
  have "round1 x = - (k / 10)"
    using False by (simp add: round1_def sgn_if k_def)
  then show ?thesis using c by (simp only:)
qed

lemma round1_tenths: "round1 x * 10 \<in> \<int>"
  by (simp add: round1_def sgn_if)

lemma foldl_add_finite:
  "list_all fl_finite vs \<Longrightarrow> fl_finite z \<Longrightarrow>
     fl_finite (foldl fl_add z vs) \<and> fval (foldl fl_add z vs) = fval z + sum_list (map fval vs)"
proof (induction vs arbitrary: z)
  case Nil
  then show ?case by simp
next
  case (Cons v vs)
  have "fl_finite (fl_add z v) \<and> fval (fl_add z v) = fval z + fval v"
    using Cons.prems by (simp add: fl_add_finite)
  then show ?case
    using Cons.IH [of "fl_add z v"] Cons.prems by simp
qed

lemma stat_finite:
  assumes "all_finite c df"
  shows "rounded_mean c df (stat c df)"
proof -
  let ?vs = "non_null (map c df)"
  let ?m = "fl_div (foldl fl_add (Fin 0) ?vs) (Fin (real (length ?vs)))"
  have ne: "?vs \<noteq> []" and fin: "list_all fl_finite ?vs"
    using assms by (simp_all add: all_finite_def)
  have s: "fl_finite (foldl fl_add (Fin 0) ?vs) \<and>
           fval (foldl fl_add (Fin 0) ?vs) = sum_list (map fval ?vs)"
    using foldl_add_finite [OF fin, of "Fin 0"] by simp
  have len: "fval (Fin (real (length ?vs))) \<noteq> 0" using ne by simp
  have m: "fl_finite ?m \<and> fval ?m = mean_defined c df"
    using s len fl_div_finite [of "foldl fl_add (Fin 0) ?vs" "Fin (real (length ?vs))"]
    by (simp add: mean_defined_def)
  have "stat c df = fl_round1 ?m"
    using ne by (simp add: stat_def col_mean_def Let_def c_round1_def to_pandas_def)
  then have "fl_finite (stat c df) \<and> fval (stat c df) = round1 (mean_defined c df)"
    using m fl_round1_finite [of ?m] by simp
  then show ?thesis
    using round1_close [of "mean_defined c df"] round1_tenths [of "mean_defined c df"]
    by (simp add: rounded_mean_def)
qed

lemma canon_round1_single:
  "canon (fl_round1 (fl_div (fl_add (Fin 0) v) (Fin 1))) = canon (fl_round1 v)"
  by (cases v) (simp_all add: fl_add_def fl_div_def mkfin_def mkinf_def round1_def)

lemma stat_single: "canon (stat c [r]) = canon (fl_round1 (to_pandas (c r)))"
proof (cases "c r")
  case None
  then show ?thesis by (simp add: stat_def col_mean_def c_round1_def to_pandas_def)
next
  case (Some v)
  then show ?thesis
    using canon_round1_single [of v]
    by (simp add: stat_def col_mean_def c_round1_def to_pandas_def)
qed

text \<open>
  C2, as stated, fails: the reference row and the lob row together give a VAA scalar that
  is not-a-number, not the finite scalar of the reference row alone.
\<close>

theorem nan_excluded_counterexample:
  "(fval (Fin (- 40)))\<^sup>2 - 2 * fval (Fin 20) * (y0 - yf) < 0 \<and>
   vy0 slow_pitch = Some (Fin (- 40)) \<and> ay slow_pitch = Some (Fin 20) \<and>
   vaa_deg (with_vaa_columns slow_pitch) = Some NaN \<and>
   VAA (summary (derive [reference_pitch, slow_pitch])) = NaN \<and>
   fl_finite (VAA (summary (derive [reference_pitch]))) \<and>
   VAA (summary (derive [reference_pitch, slow_pitch])) \<noteq> VAA (summary (derive [reference_pitch]))"
proof -
  have n: "vaa_deg (with_vaa_columns slow_pitch) = Some NaN"
    by (rule vaa_deg_nan [OF slow_pitch_fields _ _ slow_radicand]) simp_all
  have "with_vaa_columns slow_pitch \<in> set (derive [reference_pitch, slow_pitch])"
    by (simp add: derive_def)
  then have s: "stat vaa_deg (derive [reference_pitch, slow_pitch]) = NaN"
    using n by (rule stat_nan)
  obtain g where g: "vaa_deg (with_vaa_columns reference_pitch) = Some g" "fl_finite g"
    using reference_vaa_defined by blast
  have "all_finite vaa_deg (derive [reference_pitch])"
    using g by (simp add: all_finite_def derive_def)
  then have "rounded_mean vaa_deg (derive [reference_pitch]) (stat vaa_deg (derive [reference_pitch]))"
    by (rule stat_finite)
  then have f: "fl_finite (stat vaa_deg (derive [reference_pitch]))"
    by (simp add: rounded_mean_def)
  then have "stat vaa_deg (derive [reference_pitch]) \<noteq> NaN" by auto
  then show ?thesis
    using n s f slow_radicand slow_pitch_fields by (simp add: summary_def)
qed

text \<open>
  C7. For a non-empty derived row-set, each summary scalar whose column has finite
  non-null values is the mean of those values rounded to one decimal place: a finite float,
  equal to \<open>round1\<close> of the mean, a multiple of 1/10 within 1/20 of the mean. Over a single
  row each scalar is the row's own column value rounded to one decimal place, up to the
  sign of zero (a null reads as not-a-number in the pandas row).
\<close>

theorem summary_rounded_means:
  assumes "df \<noteq> []"
  shows "(all_finite start_speed df \<longrightarrow> rounded_mean start_speed df (Velo (summary df))) \<and>
         (all_finite ivb df \<longrightarrow> rounded_mean ivb df (IVB (summary df))) \<and>
         (all_finite hb df \<longrightarrow> rounded_mean hb df (HB (summary df))) \<and>
         (all_finite extension df \<longrightarrow> rounded_mean extension df (Ext (summary df))) \<and>
         (all_finite vaa_deg df \<longrightarrow> rounded_mean vaa_deg df (VAA (summary df))) \<and>
         canon (Velo (summary [r])) = canon (fl_round1 (to_pandas (start_speed r))) \<and>
         canon (IVB (summary [r])) = canon (fl_round1 (to_pandas (ivb r))) \<and>
         canon (HB (summary [r])) = canon (fl_round1 (to_pandas (hb r))) \<and>
         canon (Ext (summary [r])) = canon (fl_round1 (to_pandas (extension r))) \<and>
         canon (VAA (summary [r])) = canon (fl_round1 (to_pandas (vaa_deg r)))"
  by (simp add: summary_def stat_finite stat_single)

theorem summary_rounded_means_witness:
  "summary_example \<noteq> [] \<and>
   all_finite start_speed summary_example \<and> all_finite ivb summary_example \<and>
   all_finite hb summary_example \<and> all_finite extension summary_example \<and>
   all_finite vaa_deg summary_example \<and>
   fval (Velo (summary summary_example)) = 977 / 10 \<and>
   fval (IVB (summary summary_example)) = 163 / 10 \<and>
   fval (HB (summary summary_example)) = - 87 / 10 \<and>
   fval (Ext (summary summary_example)) = 69 / 10 \<and>
   fval (VAA (summary summary_example)) = - 51 / 10 \<and>
   canon (Velo (summary [hd summary_example])) = Fin (981 / 10)"
proof -
  have ne: "summary_example \<noteq> []" by (simp add: summary_example_def)
  have sel: "map start_speed summary_example = [lit (981 / 10), lit (2431 / 25)]"
    "map ivb summary_example = [lit (163 / 10), lit (163 / 10)]"
    "map hb summary_example = [lit (- 87 / 10), lit (- 87 / 10)]"
    "map extension summary_example = [lit (69 / 10), None]"
    "map vaa_deg summary_example = [lit (- 26 / 5), lit (- 247 / 50)]"
    "start_speed (hd summary_example) = lit (981 / 10)"
    by (simp_all add: summary_example_def reference_pitch_def pitch.defs derived.defs)
  have fin: "all_finite start_speed summary_example" "all_finite ivb summary_example"
    "all_finite hb summary_example" "all_finite extension summary_example"
    "all_finite vaa_deg summary_example"
    by (simp_all add: all_finite_def sel lit_def)
  have md: "mean_defined start_speed summary_example = 9767 / 100"
    "mean_defined ivb summary_example = 163 / 10"
    "mean_defined hb summary_example = - (87 / 10)"
    "mean_defined extension summary_example = 69 / 10"
    "mean_defined vaa_deg summary_example = - (507 / 100)"
    by (simp_all add: mean_defined_def sel lit_def)
  have r1: "round1 (9767 / 100) = 977 / 10" "round1 (163 / 10) = 163 / 10"
    "round1 (- (87 / 10)) = - 87 / 10" "round1 (69 / 10) = 69 / 10"
    "round1 (- (507 / 100)) = - 51 / 10" "round1 (981 / 10) = 981 / 10"
    by (simp_all add: round1_def)
  note th = summary_rounded_means [OF ne, of "hd summary_example"]
  have "rounded_mean start_speed summary_example (Velo (summary summary_example))"
    using th fin(1) by blast
  then have 1: "fval (Velo (summary summary_example)) = 977 / 10"
    by (simp only: rounded_mean_def md r1)
  have "rounded_mean ivb summary_example (IVB (summary summary_example))"
    using th fin(2) by blast
  then have 2: "fval (IVB (summary summary_example)) = 163 / 10"
    by (simp only: rounded_mean_def md r1)
  have "rounded_mean hb summary_example (HB (summary summary_example))"
    using th fin(3) by blast
  then have 3: "fval (HB (summary summary_example)) = - 87 / 10"
    by (simp only: rounded_mean_def md r1)
  have "rounded_mean extension summary_example (Ext (summary summary_example))"
    using th fin(4) by blast
  then have 4: "fval (Ext (summary summary_example)) = 69 / 10"
    by (simp only: rounded_mean_def md r1)
  have "rounded_mean vaa_deg summary_example (VAA (summary summary_example))"
    using th fin(5) by blast
  then have 5: "fval (VAA (summary summary_example)) = - 51 / 10"
    by (simp only: rounded_mean_def md r1)
  have "canon (Velo (summary [hd summary_example])) =
          canon (fl_round1 (to_pandas (start_speed (hd summary_example))))"
    using th by blast
  then have 6: "canon (Velo (summary [hd summary_example])) = Fin (981 / 10)"
    by (simp add: sel lit_def to_pandas_def r1 mkfin_def)
  show ?thesis
    using ne fin 1 2 3 4 5 6 by blast
qed

end
